theory Spec2Isabelle
  imports Main "HOL-Library.Char_ord" "HOL-Library.List_Lexorder"
begin

section \<open>Values received from the catalogue\<close>

text \<open>
  The fields the program reads off a catalogue item are JSON values. The model keeps the
  three shapes the catalogue delivers for them: the field is absent (\<open>Undefined\<close>), it is
  \<open>null\<close>, or it is a string. Strings are lists of 8-bit characters, ordered
  lexicographically by character code (the restriction of JavaScript's comparison of
  strings, which is by code unit, to code units below 256).
\<close>

datatype jsval = Undefined | Null | Str string

text \<open>JavaScript's truthiness: \<open>undefined\<close>, \<open>null\<close> and the empty string are falsy.\<close>

fun truthy :: "jsval \<Rightarrow> bool" where
  "truthy Undefined = False"
| "truthy Null = False"
| "truthy (Str s) = (s \<noteq> [])"

text \<open>\<open>a || b\<close>: the left operand when it is truthy, otherwise the right one.\<close>

definition js_or :: "jsval \<Rightarrow> jsval \<Rightarrow> jsval" where
  "js_or a b = (if truthy a then a else b)"

text \<open>
  \<open>a > b\<close>. Two strings are compared lexicographically. \<open>undefined\<close> becomes NaN and
  compares false with everything, and \<open>null > null\<close> is false. The program evaluates
  \<open>>\<close> only after both operands were found truthy, that is on two non-empty strings; a
  comparison of \<open>null\<close> with a string (JavaScript would first convert the string to a
  number) never happens and is given the value false.
\<close>

fun js_gt :: "jsval \<Rightarrow> jsval \<Rightarrow> bool" where
  "js_gt (Str a) (Str b) = (b < a)"
| "js_gt _ _ = False"

text \<open>\<open>(v || "")\<close> for a field \<open>v\<close>: the string, or the empty string.\<close>

fun str_or_empty :: "jsval \<Rightarrow> string" where
  "str_or_empty (Str s) = s"
| "str_or_empty _ = []"

record user =
  username :: jsval

record script =
  ident :: jsval
  title :: jsval
  description :: jsval
  creator :: jsval
  user :: "user option"
  createdAt :: jsval
  date :: jsval

text \<open>\<open>script.createdAt || script.date\<close>, the timestamp the program reads off an item.\<close>

definition timestamp :: "script \<Rightarrow> jsval" where
  "timestamp s = js_or (createdAt s) (date s)"

text \<open>
  The pagination metadata and the payload of a page. \<open>scripts = None\<close> is a payload
  without an item list (the field is absent or \<open>null\<close>); \<open>info = None\<close> is a payload
  without metadata. \<open>{ scripts: [], info: {} }\<close> is \<open>empty_page\<close>.
\<close>

record info =
  info_currentPage :: "nat option"
  info_maxPages :: "nat option"

record page_result =
  scripts :: "script list option"
  info :: "info option"

definition empty_page :: page_result where
  "empty_page = \<lparr>scripts = Some [], info = Some \<lparr>info_currentPage = None, info_maxPages = None\<rparr>\<rparr>"

section \<open>The catalogue fetcher\<close>

text \<open>
  What the network does with one request: the transport fails (\<open>fetch\<close> rejects), or a
  response arrives with a status and a body. The body does not parse as JSON, or parses
  to a falsy value (\<open>null\<close>, \<open>false\<close>, \<open>0\<close>, \<open>""\<close>), to another value that is not an
  object with fields (a number, \<open>true\<close>, a string, an array), or to an object.
\<close>

datatype body = InvalidJson | JsonFalsy | JsonOther | JsonObject page_result

datatype outcome = NetworkError | Response nat body

text \<open>\<open>resp.ok\<close>: the status is in the range 200 to 299.\<close>

definition ok :: "nat \<Rightarrow> bool" where
  "ok status = (200 \<le> status \<and> status \<le> 299)"

datatype exn = FetchRejected | HttpError nat | JsonSyntaxError

text \<open>The catalogue as the program sees it: the outcome of a request for a page.\<close>

type_synonym api = "nat \<Rightarrow> outcome"

text \<open>The body of the \<open>try\<close> block of \<open>fetchScripts\<close>; \<open>Inl\<close> is a thrown exception.\<close>

fun fetch_try :: "outcome \<Rightarrow> exn + page_result" where
  "fetch_try NetworkError = Inl FetchRejected"
| "fetch_try (Response status b) =
     (if \<not> ok status then Inl (HttpError status)
      else case b of
        InvalidJson \<Rightarrow> Inl JsonSyntaxError
      | JsonFalsy \<Rightarrow> Inr empty_page
      | JsonOther \<Rightarrow> Inr empty_page
      | JsonObject data \<Rightarrow>
          (case scripts data of None \<Rightarrow> Inr empty_page | Some _ \<Rightarrow> Inr data))"

text \<open>\<open>fetchScripts\<close>: the \<open>catch\<close> turns every exception into the empty page.\<close>

definition fetchScripts :: "api \<Rightarrow> nat \<Rightarrow> exn + page_result" where
  "fetchScripts net page =
     (case fetch_try (net page) of
        Inl err \<Rightarrow> Inr empty_page
      | Inr data \<Rightarrow> Inr data)"

section \<open>The controller's state\<close>

text \<open>
  The globals of the script that the modelled functions read or write, the two parts of
  the page they write (the badge: \<open>None\<close> when hidden, \<open>Some n\<close> when it shows "n new";
  the error notifications shown), and the trace of the pages requested from the
  catalogue. The grid of cards is a rendering of \<open>filteredScripts\<close> and is left out, as
  are the poll timer and its interval: a tick of the timer is a call of
  \<open>pollForNewScripts\<close>. Each function runs to completion on the outcome of its request.
\<close>

record state =
  currentPage :: nat
  maxPages :: "nat option"
  autoRefresh :: bool
  newestTimestamp :: jsval
  allScripts :: "script list"
  filteredScripts :: "script list"
  searchQuery :: string
  newCountBadge :: "nat option"
  errors :: "string list"
  requests :: "nat list"

definition init :: state where
  "init = \<lparr>currentPage = 1, maxPages = None, autoRefresh = True, newestTimestamp = Null,
     allScripts = [], filteredScripts = [], searchQuery = [], newCountBadge = None,
     errors = [], requests = []\<rparr>"

section \<open>The search filter\<close>

text \<open>
  \<open>trim\<close> removes white space at both ends; below 256 the white space characters are
  9 to 13, 32 and 160.
\<close>

definition is_space :: "char \<Rightarrow> bool" where
  "is_space c = ((of_char c :: nat) \<in> {9, 10, 11, 12, 13, 32, 160})"

definition trim :: "string \<Rightarrow> string" where
  "trim s = rev (dropWhile is_space (rev (dropWhile is_space s)))"

text \<open>
  \<open>toLowerCase\<close> on code units below 256: the letters A to Z, and the capital letters
  of Latin-1 (192 to 222, the multiplication sign 215 apart), move up by 32.
\<close>

definition lower_char :: "char \<Rightarrow> char" where
  "lower_char c =
     (let n = (of_char c :: nat)
      in if (65 \<le> n \<and> n \<le> 90) \<or> (192 \<le> n \<and> n \<le> 222 \<and> n \<noteq> 215)
         then char_of (n + 32) else c)"

definition toLowerCase :: "string \<Rightarrow> string" where
  "toLowerCase s = map lower_char s"

text \<open>\<open>s.includes(q)\<close>: \<open>q\<close> occurs in \<open>s\<close> as a contiguous run.\<close>

fun str_includes :: "string \<Rightarrow> string \<Rightarrow> bool" where
  "str_includes [] q = (q = [])"
| "str_includes (c # cs) q = (take (length q) (c # cs) = q \<or> str_includes cs q)"

definition matches :: "string \<Rightarrow> script \<Rightarrow> bool" where
  "matches query s =
     (str_includes (toLowerCase (str_or_empty (title s))) query \<or>
      str_includes (toLowerCase (str_or_empty (description s))) query \<or>
      str_includes (toLowerCase (str_or_empty (creator s))) query \<or>
      str_includes (toLowerCase (str_or_empty
         (case user s of None \<Rightarrow> Undefined | Some u \<Rightarrow> username u))) query)"

definition applySearchFilter :: "state \<Rightarrow> state" where
  "applySearchFilter st =
     (if trim (searchQuery st) = [] then st\<lparr>filteredScripts := allScripts st\<rparr>
      else st\<lparr>filteredScripts := filter (matches (toLowerCase (searchQuery st))) (allScripts st)\<rparr>)"

definition showNewCount :: "nat \<Rightarrow> state \<Rightarrow> state" where
  "showNewCount count st =
     (if count > 0 then st\<lparr>newCountBadge := Some count\<rparr> else st\<lparr>newCountBadge := None\<rparr>)"

definition showError :: "string \<Rightarrow> state \<Rightarrow> state" where
  "showError message st = st\<lparr>errors := errors st @ [message]\<rparr>"

section \<open>Page loads\<close>

text \<open>\<open>data.info?.currentPage || page\<close> and \<open>data.info?.maxPages || null\<close>: 0 is falsy.\<close>

definition page_or :: "info option \<Rightarrow> nat \<Rightarrow> nat" where
  "page_or i page =
     (case i of None \<Rightarrow> page
      | Some m \<Rightarrow> (case info_currentPage m of None \<Rightarrow> page
                  | Some n \<Rightarrow> if n = 0 then page else n))"

definition max_or_null :: "info option \<Rightarrow> nat option" where
  "max_or_null i =
     (case i of None \<Rightarrow> None
      | Some m \<Rightarrow> (case info_maxPages m of None \<Rightarrow> None
                  | Some n \<Rightarrow> if n = 0 then None else Some n))"

definition loadPage :: "api \<Rightarrow> nat \<Rightarrow> state \<Rightarrow> state" where
  "loadPage net page st =
     (let st0 = st\<lparr>requests := requests st @ [page]\<rparr> in
      case fetchScripts net page of
        Inl err \<Rightarrow> showError ''Failed to load scripts. Please try again.'' st0
      | Inr data \<Rightarrow>
          (let st1 = st0\<lparr>allScripts := (case scripts data of None \<Rightarrow> [] | Some xs \<Rightarrow> xs)\<rparr>;
               st2 = applySearchFilter st1;
               st3 = st2\<lparr>currentPage := page_or (info data) page,
                         maxPages := max_or_null (info data)\<rparr>
           in case scripts data of
                Some (first # rest) \<Rightarrow>
                  st3\<lparr>newestTimestamp :=
                        js_or (createdAt first) (js_or (date first) (newestTimestamp st3))\<rparr>
              | _ \<Rightarrow> st3))"

section \<open>The incremental update detector\<close>

text \<open>
  The \<open>for\<close> loop of \<open>pollForNewScripts\<close> over the fetched items, with the two variables
  it writes: the watermark \<open>newestTimestamp\<close> and the list \<open>newItems\<close>. Each \<open>break\<close>
  returns the two as they are.
\<close>

fun scan :: "script list \<Rightarrow> jsval \<Rightarrow> script list \<Rightarrow> jsval \<times> script list" where
  "scan [] newest newItems = (newest, newItems)"
| "scan (s # rest) newest newItems =
     (let ts = js_or (createdAt s) (date s) in
      if \<not> truthy newest then (ts, newItems)
      else if truthy ts \<and> js_gt ts newest then scan rest newest (newItems @ [s])
      else (newest, newItems))"

definition pollForNewScripts :: "api \<Rightarrow> state \<Rightarrow> state" where
  "pollForNewScripts net st =
     (if \<not> autoRefresh st then st
      else
        let st0 = st\<lparr>requests := requests st @ [1]\<rparr> in
        case fetchScripts net 1 of
          Inl err \<Rightarrow> st0
        | Inr data \<Rightarrow>
            (case scripts data of
               None \<Rightarrow> st0
             | Some [] \<Rightarrow> st0
             | Some (first # rest) \<Rightarrow>
                 (let (newest, newItems) = scan (first # rest) (newestTimestamp st0) [];
                      st1 = st0\<lparr>newestTimestamp := newest\<rparr>
                  in if length newItems > 0 then
                       (let st2 = st1\<lparr>allScripts := rev newItems @ allScripts st1\<rparr>;
                            st3 = st2\<lparr>newestTimestamp :=
                                    js_or (createdAt first) (js_or (date first) (newestTimestamp st2))\<rparr>;
                            st4 = applySearchFilter st3
                        in showNewCount (length newItems) st4)
                     else st1)))"

section \<open>Notions used to state the properties\<close>

text \<open>
  An item is newer than the watermark \<open>w\<close> when the test of the loop,
  \<open>timestamp && timestamp > newestTimestamp\<close>, succeeds on it.
\<close>

definition newer :: "jsval \<Rightarrow> script \<Rightarrow> bool" where
  "newer w s = (truthy (timestamp s) \<and> js_gt (timestamp s) w)"

text \<open>
  The order of timestamps in which the ordering properties are stated. It is a notion of
  the specification, not an operator of the program (which evaluates \<open>>\<close> only, and not
  JavaScript's \<open>>=\<close>): \<open>ts_ge a b\<close> holds when both values are timestamps, that is
  non-empty strings, and \<open>a\<close> is lexicographically at least \<open>b\<close>. A value that is no
  timestamp (absent, \<open>null\<close> or the empty string) is comparable with nothing.
\<close>

fun ts_ge :: "jsval \<Rightarrow> jsval \<Rightarrow> bool" where
  "ts_ge (Str a) (Str b) = (a \<noteq> [] \<and> b \<noteq> [] \<and> b \<le> a)"
| "ts_ge _ _ = False"

text \<open>
  A list of items is timestamp-descending when each item's timestamp is at least that of
  every later item, and timestamp-ascending when every later item's is at least its own.
  In a list of two or more items that is either, every item has a timestamp.
\<close>

definition descending :: "script list \<Rightarrow> bool" where
  "descending xs = sorted_wrt (\<lambda>a b. ts_ge (timestamp a) (timestamp b)) xs"

definition ascending :: "script list \<Rightarrow> bool" where
  "ascending xs = sorted_wrt (\<lambda>a b. ts_ge (timestamp b) (timestamp a)) xs"

text \<open>
  The outcomes the specification calls failures of a request: a transport failure, a
  status that is not a success, or a payload without the item list (which includes a body
  that is not an object, or not JSON at all).
\<close>

fun failed :: "outcome \<Rightarrow> bool" where
  "failed NetworkError = True"
| "failed (Response status b) =
     (\<not> ok status \<or> (case b of JsonObject d \<Rightarrow> scripts d = None | _ \<Rightarrow> True))"

section \<open>Concrete inputs\<close>

text \<open>
  An item with an identifier and a creation time and no other field, and one without any
  timestamp; four dated items; a catalogue that answers every request with a given list
  of items, one that is unreachable, and one with two pages; the state of a session that
  shows given items under a given watermark.
\<close>

definition item :: "string \<Rightarrow> string \<Rightarrow> script" where
  "item i t = \<lparr>ident = Str i, title = Str i, description = Undefined, creator = Null,
     user = None, createdAt = Str t, date = Undefined\<rparr>"

definition serve :: "script list \<Rightarrow> api" where
  "serve xs = (\<lambda>page. Response 200 (JsonObject \<lparr>scripts = Some xs, info = None\<rparr>))"

definition down :: api where
  "down = (\<lambda>page. NetworkError)"

definition untimed :: "string \<Rightarrow> script" where
  "untimed i = \<lparr>ident = Str i, title = Str i, description = Undefined, creator = Null,
     user = None, createdAt = Undefined, date = Null\<rparr>"

definition it3 :: script where "it3 = item ''t3'' ''2024-03-01''"
definition it4 :: script where "it4 = item ''t4'' ''2024-04-01''"
definition it5 :: script where "it5 = item ''t5'' ''2024-05-01''"
definition it9 :: script where "it9 = item ''t9'' ''2024-09-01''"

definition viewing :: "string \<Rightarrow> script list \<Rightarrow> state" where
  "viewing w xs = init\<lparr>newestTimestamp := Str w, allScripts := xs, filteredScripts := xs\<rparr>"

definition two_pages :: api where
  "two_pages page =
     (if page = 1 then Response 200 (JsonObject \<lparr>scripts = Some [it9, it5],
          info = Some \<lparr>info_currentPage = Some 1, info_maxPages = Some 2\<rparr>\<rparr>)
      else if page = 2 then Response 200 (JsonObject \<lparr>scripts = Some [it4, it3],
          info = Some \<lparr>info_currentPage = Some 2, info_maxPages = Some 2\<rparr>\<rparr>)
      else Response 404 JsonFalsy)"

section \<open>Basic facts\<close>

lemma js_or_truthy: "truthy (js_or a b) \<Longrightarrow> js_or a (js_or b c) = js_or a b"
  by (auto simp: js_or_def split: if_splits)

text \<open>With a watermark set, the loop collects the longest prefix of newer items.\<close>

lemma scan_set: "truthy w \<Longrightarrow> scan xs w acc = (w, acc @ takeWhile (newer w) xs)"
  by (induction xs arbitrary: acc) (auto simp: newer_def timestamp_def Let_def)

lemma scan_unset: "\<not> truthy w \<Longrightarrow> scan (s # rest) w acc = (timestamp s, acc)"
  by (simp add: timestamp_def)

lemma fetchScripts_Inr: "\<exists>d. fetchScripts net page = Inr d"
  by (simp add: fetchScripts_def split: sum.splits)

lemma fetchScripts_serve:
  "fetchScripts (serve xs) page = Inr \<lparr>scripts = Some xs, info = None\<rparr>"
  by (simp add: fetchScripts_def serve_def ok_def)

lemma fetchScripts_down: "fetchScripts down page = Inr empty_page"
  by (simp add: fetchScripts_def down_def)

lemma applySearchFilter_frame [simp]:
  "newestTimestamp (applySearchFilter st) = newestTimestamp st"
  "allScripts (applySearchFilter st) = allScripts st"
  "requests (applySearchFilter st) = requests st"
  "newCountBadge (applySearchFilter st) = newCountBadge st"
  by (simp_all add: applySearchFilter_def)

lemma showNewCount_frame [simp]:
  "newestTimestamp (showNewCount n st) = newestTimestamp st"
  "allScripts (showNewCount n st) = allScripts st"
  "filteredScripts (showNewCount n st) = filteredScripts st"
  "requests (showNewCount n st) = requests st"
  by (simp_all add: showNewCount_def)

lemma example_timestamps:
  "timestamp it3 = Str ''2024-03-01''" "timestamp it4 = Str ''2024-04-01''"
  "timestamp it5 = Str ''2024-05-01''" "timestamp it9 = Str ''2024-09-01''"
  "timestamp (untimed i) = Null"
  by (simp_all add: it3_def it4_def it5_def it9_def item_def untimed_def timestamp_def js_or_def)

lemma viewing_simps:
  "autoRefresh (viewing w xs)" "newestTimestamp (viewing w xs) = Str w"
  "allScripts (viewing w xs) = xs"
  by (simp_all add: viewing_def init_def)

lemma scripts_served: "scripts \<lparr>scripts = Some xs, info = None\<rparr> = Some xs"
  by simp

lemma applySearchFilter_flag [simp]: "autoRefresh (applySearchFilter st) = autoRefresh st"
  by (simp add: applySearchFilter_def)

lemma showNewCount_flag [simp]: "autoRefresh (showNewCount n st) = autoRefresh st"
  by (simp add: showNewCount_def)

lemma not_newer_self: "\<not> newer (timestamp s) s"
  by (cases "timestamp s") (simp_all add: newer_def)

lemma takeWhile_stop: "\<not> P x \<Longrightarrow> takeWhile P (pre @ x # post) = takeWhile P pre"
  by (induction pre) simp_all

text \<open>A poll that fetches a page while a watermark is set.\<close>

lemma poll_set:
  assumes "autoRefresh st" and "truthy (newestTimestamp st)"
    and "fetchScripts net 1 = Inr data" and "scripts data = Some page"
  shows "pollForNewScripts net st =
    (if takeWhile (newer (newestTimestamp st)) page = [] then st\<lparr>requests := requests st @ [1]\<rparr>
     else showNewCount (length (takeWhile (newer (newestTimestamp st)) page))
       (applySearchFilter (st\<lparr>requests := requests st @ [1],
          allScripts := rev (takeWhile (newer (newestTimestamp st)) page) @ allScripts st,
          newestTimestamp := timestamp (hd page)\<rparr>)))"
proof (cases page)
  case Nil
  with assms show ?thesis by (simp add: pollForNewScripts_def)
next
  case (Cons first rest)
  show ?thesis
  proof (cases "newer (newestTimestamp st) first")
    case False
    with assms Cons show ?thesis
      by (simp add: pollForNewScripts_def scan_set Let_def del: scan.simps)
  next
    case True
    then have t: "js_or (createdAt first) (js_or (date first) w) = timestamp first" for w
      by (simp add: newer_def timestamp_def js_or_truthy)
    from assms Cons True show ?thesis
      by (simp add: pollForNewScripts_def scan_set t Let_def del: scan.simps)
  qed
qed

lemma poll_set_allScripts:
  assumes "autoRefresh st" and "truthy (newestTimestamp st)"
    and "fetchScripts net 1 = Inr data" and "scripts data = Some page"
  shows "allScripts (pollForNewScripts net st) =
    rev (takeWhile (newer (newestTimestamp st)) page) @ allScripts st"
  by (simp add: poll_set [OF assms])

text \<open>A poll that fetches a non-empty page while no watermark is set.\<close>

lemma poll_unset:
  "autoRefresh st \<Longrightarrow> \<not> truthy (newestTimestamp st) \<Longrightarrow>
   fetchScripts net 1 = Inr data \<Longrightarrow> scripts data = Some (first # rest) \<Longrightarrow>
   pollForNewScripts net st =
     st\<lparr>requests := requests st @ [1], newestTimestamp := timestamp first\<rparr>"
  by (simp add: pollForNewScripts_def timestamp_def)

lemma js_gt_ts_ge_trans: "js_gt a w \<Longrightarrow> ts_ge w b \<Longrightarrow> ts_ge a b"
  by (cases a; cases w; cases b) auto

lemma descending_takeWhile: "descending xs \<Longrightarrow> descending (takeWhile P xs)"
proof -
  assume "descending xs"
  then have "sorted_wrt (\<lambda>a b. ts_ge (timestamp a) (timestamp b)) (takeWhile P xs @ dropWhile P xs)"
    by (simp add: descending_def)
  then show ?thesis
    unfolding descending_def sorted_wrt_append by blast
qed

lemma ascending_rev: "ascending (rev xs) = descending xs"
  by (simp add: ascending_def descending_def sorted_wrt_rev)

lemma loadPage_serve_example:
  "loadPage (serve [it3]) 1 init =
     \<lparr>currentPage = 1, maxPages = None, autoRefresh = True,
      newestTimestamp = Str ''2024-03-01'', allScripts = [it3],
      filteredScripts = [it3], searchQuery = [], newCountBadge = None,
      errors = [], requests = [1]\<rparr>"
  by (simp add: loadPage_def fetchScripts_serve init_def applySearchFilter_def trim_def
      page_or_def max_or_null_def it3_def item_def js_or_def)

lemma loadPage_untimed_example:
  "loadPage (serve [untimed ''u'']) 1 (loadPage (serve [it4]) 1 init) =
     \<lparr>currentPage = 1, maxPages = None, autoRefresh = True,
      newestTimestamp = Str ''2024-04-01'', allScripts = [untimed ''u''],
      filteredScripts = [untimed ''u''], searchQuery = [], newCountBadge = None,
      errors = [], requests = [1, 1]\<rparr>"
  by (simp add: loadPage_def fetchScripts_serve init_def applySearchFilter_def trim_def
      page_or_def max_or_null_def it4_def item_def untimed_def js_or_def)

lemma example_merge:
  "pollForNewScripts (serve [it5, it4, it3]) (viewing ''2024-03-01'' [it3]) =
     \<lparr>currentPage = 1, maxPages = None, autoRefresh = True,
      newestTimestamp = Str ''2024-05-01'', allScripts = [it4, it5, it3],
      filteredScripts = [it4, it5, it3], searchQuery = [], newCountBadge = Some 2,
      errors = [], requests = [1]\<rparr>"
  by (simp add: pollForNewScripts_def fetchScripts_serve viewing_def init_def
      it3_def it4_def it5_def item_def js_or_def applySearchFilter_def showNewCount_def trim_def)

section \<open>The fetcher collapses failures\<close>

text \<open>
  C6. Whatever the network does, \<open>fetchScripts\<close> returns a value and throws nothing.
  On a transport failure, a status that is not a success, or a payload without the item
  list, the value is the empty page result (no items, metadata without fields), and it is
  the very value returned for a successful response whose payload is an empty page: the
  return value does not tell the failure from that empty page.
\<close>

theorem fetchScripts_collapses_failure:
  "(\<exists>d. fetchScripts net page = Inr d) \<and>
   (failed (net page) \<longrightarrow>
      fetchScripts net page = Inr empty_page \<and>
      fetchScripts net page = fetchScripts (\<lambda>p. Response 200 (JsonObject empty_page)) page)"
proof (intro conjI impI)
  show "\<exists>d. fetchScripts net page = Inr d" by (rule fetchScripts_Inr)
next
  assume f: "failed (net page)"
  show "fetchScripts net page = Inr empty_page"
  proof (cases "net page")
    case NetworkError
    then show ?thesis by (simp add: fetchScripts_def)
  next
    case (Response status b)
    with f show ?thesis
      by (cases b) (auto simp: fetchScripts_def split: option.splits)
  qed
  moreover have "fetchScripts (\<lambda>p. Response 200 (JsonObject empty_page)) page = Inr empty_page"
    by (simp add: fetchScripts_def ok_def empty_page_def)
  ultimately show
    "fetchScripts net page = fetchScripts (\<lambda>p. Response 200 (JsonObject empty_page)) page"
    by simp
qed

theorem fetchScripts_collapses_failure_witness:
  "failed (Response 503 (JsonObject \<lparr>scripts = Some [item ''a'' ''2024-01''], info = None\<rparr>)) \<and>
   fetchScripts
     (\<lambda>p. Response 503 (JsonObject \<lparr>scripts = Some [item ''a'' ''2024-01''], info = None\<rparr>)) 1
     = Inr \<lparr>scripts = Some [], info = Some \<lparr>info_currentPage = None, info_maxPages = None\<rparr>\<rparr>"
  using fetchScripts_collapses_failure
    [of "\<lambda>p. Response 503 (JsonObject \<lparr>scripts = Some [item ''a'' ''2024-01''], info = None\<rparr>)" 1]
  by (simp add: ok_def empty_page_def)

section \<open>Page loads that come back empty\<close>

text \<open>
  C10. When the fetch of \<open>loadPage\<close> yields a result with an empty item list (a failure
  collapsed to the empty page, or a page that really is empty), the collection and the
  filtered view become empty, whatever they held, and the watermark keeps its value.
\<close>

theorem loadPage_empty_discards:
  "fetchScripts net page = Inr data \<Longrightarrow> scripts data = Some [] \<Longrightarrow>
   allScripts (loadPage net page st) = [] \<and>
   filteredScripts (loadPage net page st) = [] \<and>
   newestTimestamp (loadPage net page st) = newestTimestamp st"
  by (simp add: loadPage_def applySearchFilter_def Let_def)

theorem loadPage_empty_discards_witness:
  "fetchScripts down 1 = Inr empty_page \<and> scripts empty_page = Some [] \<and>
   allScripts (init\<lparr>allScripts := [item ''a'' ''2024-01''], newestTimestamp := Str ''2024-01''\<rparr>)
     = [item ''a'' ''2024-01''] \<and>
   allScripts (loadPage down 1
     (init\<lparr>allScripts := [item ''a'' ''2024-01''], newestTimestamp := Str ''2024-01''\<rparr>)) = [] \<and>
   newestTimestamp (loadPage down 1
     (init\<lparr>allScripts := [item ''a'' ''2024-01''], newestTimestamp := Str ''2024-01''\<rparr>))
     = Str ''2024-01''"
proof -
  have f: "fetchScripts down 1 = Inr empty_page" by (rule fetchScripts_down)
  have e: "scripts empty_page = Some []" by (simp add: empty_page_def)
  show ?thesis
    using f e loadPage_empty_discards [OF f e,
        of "init\<lparr>allScripts := [item ''a'' ''2024-01''], newestTimestamp := Str ''2024-01''\<rparr>"]
    by (simp add: init_def)
qed

section \<open>The detector\<close>

text \<open>
  C9. With the auto-refresh flag off, \<open>pollForNewScripts\<close> returns the state it was
  given, whatever the catalogue would answer: no request is added to the trace, and the
  collection, the filtered view and the watermark are as before.
\<close>

theorem poll_disabled: "\<not> autoRefresh st \<Longrightarrow> pollForNewScripts net st = st"
  by (simp add: pollForNewScripts_def)

theorem poll_disabled_witness:
  "\<not> autoRefresh (init\<lparr>autoRefresh := False\<rparr>) \<and>
   pollForNewScripts (serve [item ''a'' ''2024-01'']) (init\<lparr>autoRefresh := False\<rparr>)
     = init\<lparr>autoRefresh := False\<rparr>"
  using poll_disabled [of "init\<lparr>autoRefresh := False\<rparr>" "serve [item ''a'' ''2024-01'']"]
  by (simp add: init_def)

text \<open>
  C3. Bootstrap. When a poll fetches a non-empty page while no watermark is set, the loop
  stops at the first item with that item's timestamp as the watermark and nothing
  accumulated, and the poll changes nothing else but the trace of requests: the
  collection, the filtered view and the badge stay as they were.
\<close>

theorem poll_bootstrap:
  "autoRefresh st \<Longrightarrow> \<not> truthy (newestTimestamp st) \<Longrightarrow>
   fetchScripts net 1 = Inr data \<Longrightarrow> scripts data = Some (first # rest) \<Longrightarrow>
   scan (first # rest) (newestTimestamp st) [] = (timestamp first, []) \<and>
   pollForNewScripts net st =
     st\<lparr>requests := requests st @ [1], newestTimestamp := timestamp first\<rparr>"
  by (simp add: pollForNewScripts_def timestamp_def)

theorem poll_bootstrap_witness:
  "autoRefresh init \<and> \<not> truthy (newestTimestamp init) \<and>
   fetchScripts (serve [item ''b'' ''2024-02'', item ''a'' ''2024-01'']) 1
     = Inr \<lparr>scripts = Some [item ''b'' ''2024-02'', item ''a'' ''2024-01''], info = None\<rparr> \<and>
   scan [item ''b'' ''2024-02'', item ''a'' ''2024-01''] Null [] = (Str ''2024-02'', []) \<and>
   pollForNewScripts (serve [item ''b'' ''2024-02'', item ''a'' ''2024-01'']) init
     = init\<lparr>requests := [1], newestTimestamp := Str ''2024-02''\<rparr>"
proof -
  have a: "autoRefresh init" by (simp add: init_def)
  have w: "\<not> truthy (newestTimestamp init)" by (simp add: init_def)
  have f: "fetchScripts (serve [item ''b'' ''2024-02'', item ''a'' ''2024-01'']) 1
     = Inr \<lparr>scripts = Some [item ''b'' ''2024-02'', item ''a'' ''2024-01''], info = None\<rparr>"
    by (rule fetchScripts_serve)
  have s: "scripts \<lparr>scripts = Some [item ''b'' ''2024-02'', item ''a'' ''2024-01''], info = None\<rparr>
     = Some (item ''b'' ''2024-02'' # [item ''a'' ''2024-01''])" by simp
  have t: "timestamp (item ''b'' ''2024-02'') = Str ''2024-02''"
    by (simp add: timestamp_def item_def js_or_def)
  show ?thesis
    using a w f poll_bootstrap [OF a w f s]
    by (simp add: init_def t)
qed

text \<open>
  C4. The order of the merged batch. For a fetched page of three items whose timestamps
  are t5, t4, t3 in descending order (t3 < t4 and t4 <= t5), with the watermark at t3,
  the loop accumulates the first two items in page order, and the poll puts them reversed,
  the older one first, in front of the collection, whose former items follow unchanged.
\<close>

theorem poll_prepends_reversed_batch:
  assumes "autoRefresh st" and "truthy (newestTimestamp st)"
    and "fetchScripts net 1 = Inr data" and "scripts data = Some [i5, i4, i3]"
    and "timestamp i5 = Str t5" and "timestamp i4 = Str t4" and "timestamp i3 = Str t3"
    and "t4 \<le> t5" and "t3 < t4" and "newestTimestamp st = Str t3"
  shows "scan [i5, i4, i3] (newestTimestamp st) [] = (newestTimestamp st, [i5, i4]) \<and>
         allScripts (pollForNewScripts net st) = [i4, i5] @ allScripts st"
proof -
  from assms have n: "newer (Str t3) i5" "newer (Str t3) i4" "\<not> newer (Str t3) i3"
    by (auto simp: newer_def)
  then have tw: "takeWhile (newer (newestTimestamp st)) [i5, i4, i3] = [i5, i4]"
    using assms(10) by simp
  show ?thesis
    using poll_set_allScripts [OF assms(1-4)] scan_set [OF assms(2), of "[i5, i4, i3]" "[]"]
    by (simp only: tw rev.simps append.simps simp_thms)
qed

theorem poll_prepends_reversed_batch_witness:
  "scan [it5, it4, it3] (Str ''2024-03-01'') [] = (Str ''2024-03-01'', [it5, it4]) \<and>
   allScripts (viewing ''2024-03-01'' [it3]) = [it3] \<and>
   allScripts (pollForNewScripts (serve [it5, it4, it3]) (viewing ''2024-03-01'' [it3])) = [it4, it5, it3]"
proof -
  have w: "truthy (newestTimestamp (viewing ''2024-03-01'' [it3]))"
    by (simp add: viewing_simps)
  have le: "''2024-04-01'' \<le> ''2024-05-01''" and lt: "''2024-03-01'' < ''2024-04-01''"
    by simp_all
  show ?thesis
    using poll_prepends_reversed_batch [OF viewing_simps(1) w fetchScripts_serve scripts_served
        example_timestamps(3) example_timestamps(2) example_timestamps(1) le lt viewing_simps(2)]
    by (simp add: viewing_simps)
qed

text \<open>
  C5. Early termination. With a watermark set, the loop stops at the first item that is
  not newer than the watermark: for a page that consists of newer items \<open>pre\<close>, then an
  item \<open>x\<close> that is not newer, then any items \<open>post\<close>, exactly \<open>pre\<close> is accumulated and
  merged, whatever \<open>post\<close> holds, newer items included.
\<close>

theorem scan_stops_at_first_not_newer:
  assumes "autoRefresh st" and "truthy (newestTimestamp st)"
    and "fetchScripts net 1 = Inr data" and "scripts data = Some (pre @ x # post)"
    and "\<forall>s\<in>set pre. newer (newestTimestamp st) s" and "\<not> newer (newestTimestamp st) x"
  shows "scan (pre @ x # post) (newestTimestamp st) [] = (newestTimestamp st, pre) \<and>
         allScripts (pollForNewScripts net st) = rev pre @ allScripts st"
proof -
  have "takeWhile (newer (newestTimestamp st)) (pre @ x # post) = pre"
    using assms(5,6) by (simp add: takeWhile_append2)
  then show ?thesis
    using poll_set_allScripts [OF assms(1-4)]
      scan_set [OF assms(2), of "pre @ x # post" "[]"]
    by simp
qed

theorem scan_stops_at_first_not_newer_witness:
  "newer (Str ''2024-04-01'') it5 \<and> \<not> newer (Str ''2024-04-01'') it4 \<and>
   newer (Str ''2024-04-01'') it9 \<and>
   scan [it5, it4, it9] (Str ''2024-04-01'') [] = (Str ''2024-04-01'', [it5]) \<and>
   allScripts (pollForNewScripts (serve [it5, it4, it9]) (viewing ''2024-04-01'' [it4, it3]))
     = [it5, it4, it3]"
proof -
  have w: "truthy (newestTimestamp (viewing ''2024-04-01'' [it4, it3]))"
    by (simp add: viewing_simps)
  have s: "scripts \<lparr>scripts = Some [it5, it4, it9], info = None\<rparr> = Some ([it5] @ it4 # [it9])"
    by simp
  have n: "newer (Str ''2024-04-01'') it5" "\<not> newer (Str ''2024-04-01'') it4"
    "newer (Str ''2024-04-01'') it9"
    by (simp_all add: newer_def example_timestamps)
  have pre: "\<forall>s\<in>set [it5]. newer (newestTimestamp (viewing ''2024-04-01'' [it4, it3])) s"
    using n by (simp add: viewing_simps)
  have x: "\<not> newer (newestTimestamp (viewing ''2024-04-01'' [it4, it3])) it4"
    using n by (simp add: viewing_simps)
  show ?thesis
    using n scan_stops_at_first_not_newer [OF viewing_simps(1) w fetchScripts_serve s pre x]
    by (simp add: viewing_simps)
qed

text \<open>
  C8. With a watermark set, an item without a timestamp (\<open>createdAt || date\<close> is falsy)
  ends the loop: the page gives the same result as the part of the page before that
  item, the item is not among the accumulated ones, and the merge is that of the part
  before it.
\<close>

theorem missing_timestamp_ends_scan:
  assumes "autoRefresh st" and "truthy (newestTimestamp st)"
    and "fetchScripts net 1 = Inr data" and "scripts data = Some (pre @ x # post)"
    and "\<not> truthy (timestamp x)"
  shows "scan (pre @ x # post) (newestTimestamp st) [] = scan pre (newestTimestamp st) [] \<and>
         x \<notin> set (snd (scan (pre @ x # post) (newestTimestamp st) [])) \<and>
         allScripts (pollForNewScripts net st) =
           rev (snd (scan pre (newestTimestamp st) [])) @ allScripts st"
proof -
  let ?w = "newestTimestamp st"
  from assms(5) have nx: "\<not> newer ?w x" by (simp add: newer_def)
  then have tw: "takeWhile (newer ?w) (pre @ x # post) = takeWhile (newer ?w) pre"
    by (rule takeWhile_stop)
  have "x \<notin> set (takeWhile (newer ?w) pre)"
    using nx by (auto dest: set_takeWhileD)
  then show ?thesis
    using poll_set_allScripts [OF assms(1-4)]
    by (simp add: scan_set [OF assms(2)] tw)
qed

theorem missing_timestamp_ends_scan_witness:
  "\<not> truthy (timestamp (untimed ''u'')) \<and> newer (Str ''2024-04-01'') it9 \<and>
   scan [it5, untimed ''u'', it9] (Str ''2024-04-01'') [] = (Str ''2024-04-01'', [it5]) \<and>
   allScripts (pollForNewScripts (serve [it5, untimed ''u'', it9]) (viewing ''2024-04-01'' [it4]))
     = [it5, it4]"
proof -
  have w: "truthy (newestTimestamp (viewing ''2024-04-01'' [it4]))"
    by (simp add: viewing_simps)
  have s: "scripts \<lparr>scripts = Some [it5, untimed ''u'', it9], info = None\<rparr>
      = Some ([it5] @ untimed ''u'' # [it9])"
    by simp
  have u: "\<not> truthy (timestamp (untimed ''u''))"
    by (simp add: example_timestamps)
  have n: "newer (Str ''2024-04-01'') it5" "newer (Str ''2024-04-01'') it9"
    by (simp_all add: newer_def example_timestamps)
  have p: "scan [it5] (Str ''2024-04-01'') [] = (Str ''2024-04-01'', [it5])"
    using n by (simp add: scan_set del: scan.simps)
  show ?thesis
    using u n missing_timestamp_ends_scan [OF viewing_simps(1) w fetchScripts_serve s u]
    by (simp add: viewing_simps p del: scan.simps)
qed

text \<open>
  C7. Idempotence. A second poll against the same answer of the catalogue, right after a
  first one, accumulates nothing and changes nothing but the trace of requests: the
  collection, the filtered view, the watermark and the badge are those the first poll
  left.
\<close>

theorem poll_idempotent:
  assumes "autoRefresh st" and "fetchScripts net 1 = Inr data" and "scripts data = Some page"
  shows "snd (scan page (newestTimestamp (pollForNewScripts net st)) []) = [] \<and>
         pollForNewScripts net (pollForNewScripts net st) =
           (pollForNewScripts net st)\<lparr>requests := requests (pollForNewScripts net st) @ [1]\<rparr>"
proof (cases page)
  case Nil
  with assms show ?thesis by (simp add: pollForNewScripts_def)
next
  case (Cons first rest)
  let ?w = "newestTimestamp st"
  show ?thesis
  proof (cases "truthy ?w")
    case False
    with assms Cons have p1: "pollForNewScripts net st =
        st\<lparr>requests := requests st @ [1], newestTimestamp := timestamp first\<rparr>"
      using poll_unset [of st net data first rest] by simp
    show ?thesis
    proof (cases "truthy (timestamp first)")
      case True
      have tw: "takeWhile (newer (timestamp first)) (first # rest) = []"
        by (simp add: not_newer_self)
      have "pollForNewScripts net (pollForNewScripts net st) =
          (pollForNewScripts net st)\<lparr>requests := requests (pollForNewScripts net st) @ [1]\<rparr>"
        using poll_set [of "pollForNewScripts net st" net data page] assms True Cons tw
        by (simp add: p1)
      moreover have "snd (scan page (newestTimestamp (pollForNewScripts net st)) []) = []"
        using True Cons tw by (simp add: p1 scan_set del: scan.simps)
      ultimately show ?thesis by simp
    next
      case f: False
      have "pollForNewScripts net (pollForNewScripts net st) =
          (pollForNewScripts net st)\<lparr>requests := requests (pollForNewScripts net st) @ [1]\<rparr>"
        using poll_unset [of "pollForNewScripts net st" net data first rest] assms f Cons
        by (simp add: p1)
      moreover have "snd (scan page (newestTimestamp (pollForNewScripts net st)) []) = []"
        using f Cons by (simp add: p1 scan_unset del: scan.simps)
      ultimately show ?thesis by simp
    qed
  next
    case True
    note p = poll_set [OF assms(1) True assms(2,3)]
    show ?thesis
    proof (cases "newer ?w first")
      case False
      with Cons have tw: "takeWhile (newer ?w) page = []" by simp
      then have p1: "pollForNewScripts net st = st\<lparr>requests := requests st @ [1]\<rparr>"
        using p by simp
      have "pollForNewScripts net (pollForNewScripts net st) =
          (pollForNewScripts net st)\<lparr>requests := requests (pollForNewScripts net st) @ [1]\<rparr>"
        using poll_set [of "pollForNewScripts net st" net data page] assms True tw
        by (simp add: p1)
      moreover have "snd (scan page (newestTimestamp (pollForNewScripts net st)) []) = []"
        using True tw by (simp add: p1 scan_set)
      ultimately show ?thesis by simp
    next
      case n: True
      with Cons have ne: "takeWhile (newer ?w) page \<noteq> []" by simp
      have w1: "newestTimestamp (pollForNewScripts net st) = timestamp first"
        using p ne Cons by simp
      have a1: "autoRefresh (pollForNewScripts net st)"
        using p ne assms(1) by simp
      have t1: "truthy (timestamp first)" using n by (simp add: newer_def)
      have tw: "takeWhile (newer (timestamp first)) page = []"
        using Cons by (simp add: not_newer_self)
      have "pollForNewScripts net (pollForNewScripts net st) =
          (pollForNewScripts net st)\<lparr>requests := requests (pollForNewScripts net st) @ [1]\<rparr>"
        using poll_set [of "pollForNewScripts net st" net data page] a1 t1 assms(2,3) tw
        by (simp add: w1)
      moreover have "snd (scan page (newestTimestamp (pollForNewScripts net st)) []) = []"
        using t1 tw by (simp add: w1 scan_set)
      ultimately show ?thesis by simp
    qed
  qed
qed

theorem poll_idempotent_witness:
  "pollForNewScripts (serve [it5, it4, it3]) (viewing ''2024-03-01'' [it3]) =
     \<lparr>currentPage = 1, maxPages = None, autoRefresh = True,
      newestTimestamp = Str ''2024-05-01'', allScripts = [it4, it5, it3],
      filteredScripts = [it4, it5, it3], searchQuery = [], newCountBadge = Some 2,
      errors = [], requests = [1]\<rparr> \<and>
   snd (scan [it5, it4, it3] (Str ''2024-05-01'') []) = [] \<and>
   pollForNewScripts (serve [it5, it4, it3])
       (pollForNewScripts (serve [it5, it4, it3]) (viewing ''2024-03-01'' [it3])) =
     \<lparr>currentPage = 1, maxPages = None, autoRefresh = True,
      newestTimestamp = Str ''2024-05-01'', allScripts = [it4, it5, it3],
      filteredScripts = [it4, it5, it3], searchQuery = [], newCountBadge = Some 2,
      errors = [], requests = [1, 1]\<rparr>"
  using poll_idempotent [OF viewing_simps(1) fetchScripts_serve scripts_served,
      of "[it5, it4, it3]" "''2024-03-01''" "[it3]"]
  by (simp add: example_merge)

section \<open>The order of the collection after a merge\<close>

text \<open>
  C1, as it holds. With a watermark set, a descending fetched page and a descending
  collection, the poll puts the accumulated items in front of the collection in reverse
  page order, that is in ascending timestamp order, and the former collection follows
  unchanged. The collection is descending afterwards when at most one item was
  accumulated and every item of the former collection has a timestamp that is not
  greater than the former watermark.
\<close>

theorem poll_merge_ordering:
  assumes "autoRefresh st" and "truthy (newestTimestamp st)"
    and "fetchScripts net 1 = Inr data" and "scripts data = Some page"
    and "descending page" and "descending (allScripts st)"
  shows "allScripts (pollForNewScripts net st) =
           rev (snd (scan page (newestTimestamp st) [])) @ allScripts st \<and>
         ascending (rev (snd (scan page (newestTimestamp st) []))) \<and>
         (length (snd (scan page (newestTimestamp st) [])) \<le> 1 \<and>
          (\<forall>s\<in>set (allScripts st). ts_ge (newestTimestamp st) (timestamp s)) \<longrightarrow>
            descending (allScripts (pollForNewScripts net st)))"
proof -
  let ?w = "newestTimestamp st"
  let ?news = "takeWhile (newer ?w) page"
  have sc: "snd (scan page ?w []) = ?news"
    by (simp add: scan_set [OF assms(2)])
  have merged: "allScripts (pollForNewScripts net st) = rev ?news @ allScripts st"
    by (rule poll_set_allScripts [OF assms(1-4)])
  have asc: "ascending (rev ?news)"
    using assms(5) by (simp add: ascending_rev descending_takeWhile)
  have desc: "descending (rev ?news @ allScripts st)"
    if short: "length ?news \<le> 1"
      and old: "\<forall>s\<in>set (allScripts st). ts_ge ?w (timestamp s)"
  proof (cases ?news)
    case Nil
    with assms(6) show ?thesis by simp
  next
    case (Cons n ns)
    with short have ns: "ns = []" by simp
    have "n \<in> set ?news" using Cons by simp
    then have "newer ?w n" by (rule set_takeWhileD [THEN conjunct2])
    then have "js_gt (timestamp n) ?w" by (simp add: newer_def)
    with old have "\<forall>s\<in>set (allScripts st). ts_ge (timestamp n) (timestamp s)"
      by (blast intro: js_gt_ts_ge_trans)
    with assms(6) show ?thesis
      by (simp add: Cons ns descending_def)
  qed
  show ?thesis
    using merged asc desc by (simp add: sc)
qed

theorem poll_merge_ordering_witness:
  "descending [it5, it3] \<and> descending [it4, it3] \<and>
   snd (scan [it5, it3] (Str ''2024-04-01'') []) = [it5] \<and>
   ts_ge (Str ''2024-04-01'') (timestamp it4) \<and> ts_ge (Str ''2024-04-01'') (timestamp it3) \<and>
   allScripts (pollForNewScripts (serve [it5, it3]) (viewing ''2024-04-01'' [it4, it3]))
     = [it5, it4, it3] \<and>
   descending [it5, it4, it3]"
proof -
  let ?st = "viewing ''2024-04-01'' [it4, it3]"
  have w: "truthy (newestTimestamp ?st)" by (simp add: viewing_simps)
  have d1: "descending [it5, it3]" and d2: "descending (allScripts ?st)"
    by (simp_all add: descending_def example_timestamps viewing_simps)
  have sc: "snd (scan [it5, it3] (Str ''2024-04-01'') []) = [it5]"
    by (simp add: scan_set newer_def example_timestamps del: scan.simps)
  have old: "ts_ge (Str ''2024-04-01'') (timestamp it4)" "ts_ge (Str ''2024-04-01'') (timestamp it3)"
    by (simp_all add: example_timestamps)
  show ?thesis
    using d1 d2 old
      poll_merge_ordering [OF viewing_simps(1) w fetchScripts_serve scripts_served d1 d2]
    by (simp add: viewing_simps sc descending_def example_timestamps del: scan.simps)
qed

text \<open>
  C1 as stated fails in two ways. When two items are accumulated: after a load of the
  page [t3] the collection is [t3] with the watermark at t3, and a poll that fetches
  [t5, t4, t3] leaves the collection [t4, t5, t3], which is not descending. When the
  former collection holds an item without timestamp: after a load of [t4] and then of a
  page [u] whose item has no timestamp (the watermark stays at t4), a poll that fetches
  [t5, t4] accumulates the one item t5 and leaves [t5, u], which is not descending.
\<close>

theorem merge_breaks_descending:
  "descending [it5, it4, it3] \<and>
   allScripts (loadPage (serve [it3]) 1 init) = [it3] \<and>
   newestTimestamp (loadPage (serve [it3]) 1 init) = Str ''2024-03-01'' \<and>
   descending (allScripts (loadPage (serve [it3]) 1 init)) \<and>
   allScripts (pollForNewScripts (serve [it5, it4, it3]) (loadPage (serve [it3]) 1 init))
     = [it4, it5, it3] \<and>
   \<not> descending
       (allScripts (pollForNewScripts (serve [it5, it4, it3]) (loadPage (serve [it3]) 1 init))) \<and>
   descending [it5, it4] \<and>
   allScripts (loadPage (serve [untimed ''u'']) 1 (loadPage (serve [it4]) 1 init))
     = [untimed ''u''] \<and>
   newestTimestamp (loadPage (serve [untimed ''u'']) 1 (loadPage (serve [it4]) 1 init))
     = Str ''2024-04-01'' \<and>
   descending (allScripts (loadPage (serve [untimed ''u'']) 1 (loadPage (serve [it4]) 1 init))) \<and>
   allScripts (pollForNewScripts (serve [it5, it4])
       (loadPage (serve [untimed ''u'']) 1 (loadPage (serve [it4]) 1 init)))
     = [it5, untimed ''u''] \<and>
   \<not> descending (allScripts (pollForNewScripts (serve [it5, it4])
       (loadPage (serve [untimed ''u'']) 1 (loadPage (serve [it4]) 1 init))))"
proof -
  have p: "allScripts (pollForNewScripts (serve [it5, it4, it3]) (loadPage (serve [it3]) 1 init))
      = [it4, it5, it3]"
    unfolding loadPage_serve_example
    by (simp add: pollForNewScripts_def fetchScripts_serve
        it3_def it4_def it5_def item_def js_or_def)
  have np: "\<not> descending
      (allScripts (pollForNewScripts (serve [it5, it4, it3]) (loadPage (serve [it3]) 1 init)))"
    unfolding p by (simp add: descending_def example_timestamps)
  have d: "descending [it5, it4, it3]" "descending [it5, it4]"
    by (simp_all add: descending_def example_timestamps)
  have l: "allScripts (loadPage (serve [it3]) 1 init) = [it3]"
    "newestTimestamp (loadPage (serve [it3]) 1 init) = Str ''2024-03-01''"
    "descending (allScripts (loadPage (serve [it3]) 1 init))"
    unfolding loadPage_serve_example by (simp_all add: descending_def)
  have u: "allScripts (loadPage (serve [untimed ''u'']) 1 (loadPage (serve [it4]) 1 init))
        = [untimed ''u'']"
    "newestTimestamp (loadPage (serve [untimed ''u'']) 1 (loadPage (serve [it4]) 1 init))
        = Str ''2024-04-01''"
    "descending (allScripts (loadPage (serve [untimed ''u'']) 1 (loadPage (serve [it4]) 1 init)))"
    unfolding loadPage_untimed_example by (simp_all add: descending_def)
  have q: "allScripts (pollForNewScripts (serve [it5, it4])
        (loadPage (serve [untimed ''u'']) 1 (loadPage (serve [it4]) 1 init)))
      = [it5, untimed ''u'']"
    unfolding loadPage_untimed_example
    by (simp add: pollForNewScripts_def fetchScripts_serve
        it4_def it5_def item_def untimed_def js_or_def)
  have nq: "\<not> descending (allScripts (pollForNewScripts (serve [it5, it4])
        (loadPage (serve [untimed ''u'']) 1 (loadPage (serve [it4]) 1 init))))"
    unfolding q by (simp add: descending_def example_timestamps)
  from d l p np u q nq show ?thesis by (intro conjI)
qed

section \<open>The life of the watermark\<close>

text \<open>
  The detector's own path only advances a set watermark. A poll leaves it as it is or
  replaces it by a strictly greater timestamp; when the poll fetches a page, the watermark
  changes exactly when at least one item is accumulated, and is then the timestamp of
  the first item of the fetched page.
\<close>

lemma poll_watermark_change:
  assumes "autoRefresh st" and "truthy (newestTimestamp st)"
    and "fetchScripts net 1 = Inr data" and "scripts data = Some page"
  shows "newestTimestamp (pollForNewScripts net st) =
     (if snd (scan page (newestTimestamp st) []) = [] then newestTimestamp st
      else timestamp (hd page))"
  using poll_set [OF assms] by (simp add: scan_set [OF assms(2)])

lemma poll_watermark_forward:
  assumes w: "truthy (newestTimestamp st)"
  shows "newestTimestamp (pollForNewScripts net st) = newestTimestamp st \<or>
         js_gt (newestTimestamp (pollForNewScripts net st)) (newestTimestamp st)"
proof (cases "autoRefresh st")
  case False
  then show ?thesis by (simp add: pollForNewScripts_def)
next
  case True
  let ?w = "newestTimestamp st"
  obtain d where d: "fetchScripts net 1 = Inr d"
    using fetchScripts_Inr by blast
  show ?thesis
  proof (cases "scripts d")
    case None
    with True d show ?thesis by (simp add: pollForNewScripts_def)
  next
    case (Some pg)
    note p = poll_set [OF True w d Some]
    show ?thesis
    proof (cases "takeWhile (newer ?w) pg")
      case Nil
      with p show ?thesis by simp
    next
      case (Cons n ns)
      then have "pg \<noteq> []" by auto
      with Cons have "newer ?w (hd pg)" by (cases pg) (auto split: if_splits)
      then have "js_gt (timestamp (hd pg)) ?w" by (simp add: newer_def)
      with p Cons show ?thesis by simp
    qed
  qed
qed

text \<open>
  C2. A page load moves the watermark backward. In a session on a catalogue of two
  pages, [t9, t5] and [t4, t3], the load of page 1 sets the watermark to the timestamp of
  t9; the load of page 2 then assigns the timestamp of t4, which is strictly smaller. The
  next poll of the unchanged catalogue accumulates t9 and t5 again, puts them in front
  of the items of page 2 and shows the badge "2 new".
\<close>

theorem page_load_moves_watermark_back:
  "newestTimestamp init = Null \<and>
   newestTimestamp (loadPage two_pages 1 init) = Str ''2024-09-01'' \<and>
   newestTimestamp (loadPage two_pages 2 (loadPage two_pages 1 init)) = Str ''2024-04-01'' \<and>
   js_gt (Str ''2024-09-01'') (Str ''2024-04-01'') \<and>
   allScripts (loadPage two_pages 2 (loadPage two_pages 1 init)) = [it4, it3] \<and>
   allScripts (pollForNewScripts two_pages (loadPage two_pages 2 (loadPage two_pages 1 init)))
     = [it5, it9, it4, it3] \<and>
   newCountBadge (pollForNewScripts two_pages (loadPage two_pages 2 (loadPage two_pages 1 init)))
     = Some 2"
proof -
  have l: "loadPage two_pages 2 (loadPage two_pages 1 init) =
      \<lparr>currentPage = 2, maxPages = Some 2, autoRefresh = True,
       newestTimestamp = Str ''2024-04-01'', allScripts = [it4, it3],
       filteredScripts = [it4, it3], searchQuery = [], newCountBadge = None,
       errors = [], requests = [1, 2]\<rparr>"
    by (simp add: loadPage_def fetchScripts_def two_pages_def ok_def init_def Let_def
        applySearchFilter_def trim_def page_or_def max_or_null_def
        it9_def it4_def item_def js_or_def)
  have p: "pollForNewScripts two_pages (loadPage two_pages 2 (loadPage two_pages 1 init)) =
      \<lparr>currentPage = 2, maxPages = Some 2, autoRefresh = True,
       newestTimestamp = Str ''2024-09-01'', allScripts = [it5, it9, it4, it3],
       filteredScripts = [it5, it9, it4, it3], searchQuery = [], newCountBadge = Some 2,
       errors = [], requests = [1, 2, 1]\<rparr>"
    unfolding l
    by (simp add: pollForNewScripts_def fetchScripts_def two_pages_def ok_def
        applySearchFilter_def showNewCount_def trim_def
        it9_def it5_def item_def js_or_def)
  have a: "newestTimestamp init = Null"
    "newestTimestamp (loadPage two_pages 1 init) = Str ''2024-09-01''"
    by (simp_all add: loadPage_def fetchScripts_def two_pages_def ok_def init_def Let_def
        it9_def item_def js_or_def)
  have g: "js_gt (Str ''2024-09-01'') (Str ''2024-04-01'')" by simp
  have b: "newestTimestamp (loadPage two_pages 2 (loadPage two_pages 1 init)) = Str ''2024-04-01''"
    "allScripts (loadPage two_pages 2 (loadPage two_pages 1 init)) = [it4, it3]"
    unfolding l by simp_all
  have c: "allScripts (pollForNewScripts two_pages
        (loadPage two_pages 2 (loadPage two_pages 1 init))) = [it5, it9, it4, it3]"
    "newCountBadge (pollForNewScripts two_pages
        (loadPage two_pages 2 (loadPage two_pages 1 init))) = Some 2"
    unfolding p by simp_all
  from a g b c show ?thesis by (intro conjI)
qed

end
